theory Spec2Isabelle
  imports Main "HOL-Library.Word"
begin

section \<open>Data model of \<^verbatim>\<open>pi_microsleep_hard.c\<close>\<close>

text \<open>
  C \<^verbatim>\<open>int\<close>, \<^verbatim>\<open>unsigned int\<close> and \<^verbatim>\<open>uint32_t\<close> are 32-bit words: \<open>+\<close> and unary
  \<open>-\<close> wrap, \<open><\<close> is the unsigned order that C uses for \<^verbatim>\<open>uint32_t\<close>. Pointers
  (\<^verbatim>\<open>uintptr_t *\<close>, \<^verbatim>\<open>struct sys_timer_reg_map *\<close>) are 64-bit words; \<open>0\<close> is \<^verbatim>\<open>NULL\<close>.
\<close>

type_synonym int32 = "32 word"
type_synonym uint32 = "32 word"
type_synonym ptr = "64 word"

text \<open>\<^verbatim>\<open>MAP_FAILED\<close> of \<^verbatim>\<open><sys/mman.h>\<close> is \<^verbatim>\<open>((void *) -1)\<close>.\<close>

definition MAP_FAILED :: ptr where
  "MAP_FAILED = - 1"

text \<open>
  The register block \<^verbatim>\<open>struct sys_timer_reg_map\<close>, seven 32-bit fields in address order,
  and the names of its fields.
\<close>

record sys_timer_reg_map =
  cs :: uint32
  clo :: uint32
  chi :: uint32
  c0 :: uint32
  c1 :: uint32
  c2 :: uint32
  c3 :: uint32

datatype reg = CS | CLO | CHI | C0 | C1 | C2 | C3

text \<open>
  The constants that the file takes from \<^verbatim>\<open>bcm.h\<close> and \<^verbatim>\<open>pi_microsleep_hard.h\<close>. The
  headers are not part of the sources at hand, so the constants are parameters, each at the
  value that the \<^verbatim>\<open>int\<close> variable receiving it holds.
\<close>

record header =
  BCM2835_PERI_BASE_PHYS_ADDR :: int32
  BCM2837_PERI_BASE_PHYS_ADDR :: int32
  BCM2711_PERI_BASE_PHYS_ADDR :: int32
  BCM2712_PERI_BASE_PHYS_ADDR :: int32
  BCM_SYS_TIMER_BASE_OFFSET :: int32
  ENOPIVER :: int32

text \<open>
  Everything the code does to the outside is recorded as an event: a query of
  \<^verbatim>\<open>get_pi_version__\<close> with its result, a call of \<^verbatim>\<open>map_peripheral__\<close> with its argument
  and its result, a read of a register of the overlay, a write of a register of the overlay.
\<close>

datatype event =
  GetPiVersion int32
| MapPeripheral int32 ptr
| RegRead reg
| RegWrite reg uint32

text \<open>
  The outside, as the code sees it. Each answer depends on the moment of the request, the
  number of events before it: \<^verbatim>\<open>get_pi_version__\<close> parses a file, \<^verbatim>\<open>map_peripheral__\<close>
  asks the kernel, and the register block is volatile, so that every access sees the live
  contents \<open>timer E t\<close>.
\<close>

record env =
  get_pi_version :: "nat \<Rightarrow> int32"
  map_peripheral :: "nat \<Rightarrow> int32 \<Rightarrow> ptr"
  timer :: "nat \<Rightarrow> sys_timer_reg_map"

text \<open>
  The three globals of the file and the history of events. \<open>now\<close> is the moment of the
  next event.
\<close>

record world =
  sys_timer_virt_addr :: ptr
  config_flag :: int32
  sys_timer_reg :: ptr
  history :: "event list"

definition now :: "world \<Rightarrow> nat" where
  "now w = length (history w)"

definition emit :: "event \<Rightarrow> world \<Rightarrow> world" where
  "emit e w = w\<lparr>history := history w @ [e]\<rparr>"

text \<open>The state at program start: globals zero-initialised, \<^verbatim>\<open>config_flag = 0\<close>.\<close>

definition boot :: world where
  "boot = \<lparr>sys_timer_virt_addr = 0, config_flag = 0, sys_timer_reg = 0, history = []\<rparr>"

section \<open>\<^verbatim>\<open>setup_microsleep_hard\<close>\<close>

text \<open>
  The chain of comparisons on \<^verbatim>\<open>pi_version\<close> (lines 73 to 87); \<open>None\<close> is the final
  \<^verbatim>\<open>else\<close>, which returns \<^verbatim>\<open>-ENOPIVER\<close>.
\<close>

definition bcm_peri_base_phys_addr :: "header \<Rightarrow> int32 \<Rightarrow> int32 option" where
  "bcm_peri_base_phys_addr H pi_version =
    (if pi_version = 0 \<or> pi_version = 1 then Some (BCM2835_PERI_BASE_PHYS_ADDR H)
     else if pi_version = 2 \<or> pi_version = 3 then Some (BCM2837_PERI_BASE_PHYS_ADDR H)
     else if pi_version = 4 then Some (BCM2711_PERI_BASE_PHYS_ADDR H)
     else if pi_version = 5 then Some (BCM2712_PERI_BASE_PHYS_ADDR H)
     else None)"

text \<open>
  The function returns its \<^verbatim>\<open>int\<close> status and the world it leaves. The sum of base and
  offset is the 32-bit sum. \<^verbatim>\<open>(int) MAP_FAILED\<close> keeps the low 32 bits of the pointer.
\<close>

definition setup_microsleep_hard :: "header \<Rightarrow> env \<Rightarrow> world \<Rightarrow> int32 \<times> world" where
  "setup_microsleep_hard H E w =
    (if config_flag w \<noteq> 0 then (0, w)
     else
       let pi_version = get_pi_version E (now w);
           w1 = emit (GetPiVersion pi_version) w
       in (case bcm_peri_base_phys_addr H pi_version of
            None \<Rightarrow> (- ENOPIVER H, w1)
          | Some base \<Rightarrow>
              (let sys_timer_phys_addr = base + BCM_SYS_TIMER_BASE_OFFSET H;
                   p = map_peripheral E (now w1) sys_timer_phys_addr;
                   w2 = (emit (MapPeripheral sys_timer_phys_addr p) w1)
                          \<lparr>sys_timer_virt_addr := p\<rparr>
               in if sys_timer_virt_addr w2 = MAP_FAILED then (ucast MAP_FAILED, w2)
                  else (0, w2\<lparr>config_flag := 1, sys_timer_reg := sys_timer_virt_addr w2\<rparr>))))"

section \<open>\<^verbatim>\<open>microsleep_hard\<close>\<close>

text \<open>
  A read of \<^verbatim>\<open>sys_timer_reg->clo\<close>. Through the null pointer it is a fault (the process
  is killed); through any other pointer it yields the live counter and is recorded.
\<close>

datatype fault = NullDeref

definition read_clo :: "env \<Rightarrow> world \<Rightarrow> fault + (uint32 \<times> world)" where
  "read_clo E w =
    (if sys_timer_reg w = 0 then Inl NullDeref
     else Inr (clo (timer E (now w)), emit (RegRead CLO) w))"

text \<open>
  The loop \<^verbatim>\<open>while (sys_timer_reg->clo < timout);\<close> of line 131. It may run forever, so
  it is a partial function: \<open>None\<close> is the loop that never ends.
\<close>

partial_function (option) spin :: "env \<Rightarrow> uint32 \<Rightarrow> world \<Rightarrow> (fault + world) option" where
  "spin E timout w =
    (case read_clo E w of
       Inl f \<Rightarrow> Some (Inl f)
     | Inr (v, w') \<Rightarrow> if v < timout then spin E timout w' else Some (Inr w'))"

text \<open>
  The function itself. The status of \<^verbatim>\<open>setup_microsleep_hard\<close> is dropped (line 117), and
  the value returned at the end is the constant 0 (line 161).
\<close>

definition microsleep_hard ::
  "header \<Rightarrow> env \<Rightarrow> uint32 \<Rightarrow> world \<Rightarrow> (fault + (int32 \<times> world)) option" where
  "microsleep_hard H E usec w =
    (let w1 = (if config_flag w = 0 then snd (setup_microsleep_hard H E w) else w)
     in (case read_clo E w1 of
          Inl f \<Rightarrow> Some (Inl f)
        | Inr (start, w2) \<Rightarrow>
            (let timout = start + usec
             in (case spin E timout w2 of
                   None \<Rightarrow> None
                 | Some (Inl f) \<Rightarrow> Some (Inl f)
                 | Some (Inr w3) \<Rightarrow> Some (Inr (0, w3))))))"

text \<open>
  The world after \<open>n\<close> further reads of \<^verbatim>\<open>clo\<close>: the loop does nothing else, so these
  are the only worlds it passes through.
\<close>

primrec poll :: "nat \<Rightarrow> world \<Rightarrow> world" where
  "poll 0 w = w"
| "poll (Suc n) w = poll n (emit (RegRead CLO) w)"

section \<open>Notions used in the statements\<close>

text \<open>\<open>n\<close> calls of \<^verbatim>\<open>setup_microsleep_hard\<close> in a row: the statuses and the final world.\<close>

fun setup_n :: "header \<Rightarrow> env \<Rightarrow> nat \<Rightarrow> world \<Rightarrow> int32 list \<times> world" where
  "setup_n H E 0 w = ([], w)"
| "setup_n H E (Suc n) w =
    (let (status, w1) = setup_microsleep_hard H E w;
         (rest, w2) = setup_n H E n w1
     in (status # rest, w2))"

text \<open>
  A mapping has been established when \<^verbatim>\<open>map_peripheral__\<close> was called and did not
  answer \<^verbatim>\<open>MAP_FAILED\<close>.
\<close>

fun is_mapping :: "event \<Rightarrow> bool" where
  "is_mapping (MapPeripheral a p) = (p \<noteq> MAP_FAILED)"
| "is_mapping _ = False"

text \<open>
  The base address table as the specification words it: generations 0 and 1 have the
  BCM2835 base, 2 and 3 the BCM2837 base, 4 the BCM2711 base, 5 the BCM2712 base.
\<close>

definition base_address_table :: "header \<Rightarrow> int32 \<Rightarrow> int32 option" where
  "base_address_table H = map_of
    [(0, BCM2835_PERI_BASE_PHYS_ADDR H), (1, BCM2835_PERI_BASE_PHYS_ADDR H),
     (2, BCM2837_PERI_BASE_PHYS_ADDR H), (3, BCM2837_PERI_BASE_PHYS_ADDR H),
     (4, BCM2711_PERI_BASE_PHYS_ADDR H), (5, BCM2712_PERI_BASE_PHYS_ADDR H)]"

text \<open>
  The assumption on the hardware: from one moment to the next the counter moves forward
  by at most \<open>S\<close> ticks, counted modulo \<open>2 ^ 32\<close>, and it never stands still for ever.
\<close>

definition advances :: "nat \<Rightarrow> (nat \<Rightarrow> uint32) \<Rightarrow> bool" where
  "advances S c \<longleftrightarrow> (\<forall>t. unat (c (Suc t) - c t) \<le> S) \<and> (\<forall>t. \<exists>t'>t. c t' \<noteq> c t)"

text \<open>
  The counter value \<open>c\<close> has reached or passed \<open>start + d\<close> in the modular sense: at
  least \<open>d\<close> ticks lie between \<open>start\<close> and \<open>c\<close>, counted modulo \<open>2 ^ 32\<close>.
\<close>

definition reached :: "uint32 \<Rightarrow> uint32 \<Rightarrow> uint32 \<Rightarrow> bool" where
  "reached start d c \<longleftrightarrow> d \<le> c - start"

text \<open>
  An event that touches the register block at most by a read of \<^verbatim>\<open>clo\<close>: no write, and
  no read of another register.
\<close>

fun reads_clo_only :: "event \<Rightarrow> bool" where
  "reads_clo_only (RegWrite r v) = False"
| "reads_clo_only (RegRead r) = (r = CLO)"
| "reads_clo_only _ = True"

text \<open>
  Sample inputs: a header, a register block whose counter ticks once per event from a given
  start, an outside that always gives the same answers, and the world that a successful
  setup leaves at program start, on generation 4 with the block mapped at \<open>0x7F8000\<close>.
\<close>

definition sample_header :: header where
  "sample_header = \<lparr>BCM2835_PERI_BASE_PHYS_ADDR = 0x20000000,
     BCM2837_PERI_BASE_PHYS_ADDR = 0x3F000000,
     BCM2711_PERI_BASE_PHYS_ADDR = 0xFE000000,
     BCM2712_PERI_BASE_PHYS_ADDR = 0x7C000000,
     BCM_SYS_TIMER_BASE_OFFSET = 0x3000,
     ENOPIVER = 2\<rparr>"

definition ticking :: "uint32 \<Rightarrow> nat \<Rightarrow> sys_timer_reg_map" where
  "ticking start t = \<lparr>cs = 0, clo = start + of_nat t, chi = 0, c0 = 0, c1 = 0, c2 = 0, c3 = 0\<rparr>"

definition sample_env :: "int32 \<Rightarrow> ptr \<Rightarrow> uint32 \<Rightarrow> env" where
  "sample_env version p start =
     \<lparr>get_pi_version = (\<lambda>t. version), map_peripheral = (\<lambda>t a. p), timer = ticking start\<rparr>"

definition mapped :: world where
  "mapped = \<lparr>sys_timer_virt_addr = 0x7F8000, config_flag = 1, sys_timer_reg = 0x7F8000,
     history = [GetPiVersion 4, MapPeripheral 0xFE003000 0x7F8000]\<rparr>"

section \<open>Basic facts\<close>

lemma now_emit: "now (emit e w) = Suc (now w)"
  by (simp add: now_def emit_def)

lemma emit_fields:
  "sys_timer_virt_addr (emit e w) = sys_timer_virt_addr w"
  "config_flag (emit e w) = config_flag w"
  "sys_timer_reg (emit e w) = sys_timer_reg w"
  "history (emit e w) = history w @ [e]"
  by (simp_all add: emit_def)

lemma poll_fields:
  "sys_timer_virt_addr (poll n w) = sys_timer_virt_addr w"
  "config_flag (poll n w) = config_flag w"
  "sys_timer_reg (poll n w) = sys_timer_reg w"
  "history (poll n w) = history w @ replicate n (RegRead CLO)"
  "now (poll n w) = now w + n"
  by (induction n arbitrary: w; simp add: emit_fields now_emit replicate_app_Cons_same)+

lemma spin_exit:
  assumes "sys_timer_reg w \<noteq> 0"
    and "\<forall>j<n. clo (timer E (now w + j)) < timout"
    and "\<not> clo (timer E (now w + n)) < timout"
  shows "spin E timout w = Some (Inr (poll (Suc n) w))"
  using assms
proof (induction n arbitrary: w)
  case 0
  then show ?case by (subst spin.simps) (simp add: read_clo_def)
next
  case (Suc n)
  let ?w = "emit (RegRead CLO) w"
  from Suc.prems(2) have first: "clo (timer E (now w)) < timout" by force
  have "spin E timout ?w = Some (Inr (poll (Suc n) ?w))"
  proof (rule Suc.IH)
    show "sys_timer_reg ?w \<noteq> 0" using Suc.prems(1) by (simp add: emit_fields)
    show "\<forall>j<n. clo (timer E (now ?w + j)) < timout"
      using Suc.prems(2) by (auto simp: now_emit dest: spec[where x="Suc j" for j])
    show "\<not> clo (timer E (now ?w + n)) < timout"
      using Suc.prems(3) by (simp add: now_emit)
  qed
  with first Suc.prems(1) show ?case
    by (subst spin.simps) (simp add: read_clo_def)
qed

lemma spin_result:
  assumes "spin E timout w = Some r"
  shows "(sys_timer_reg w = 0 \<and> r = Inl NullDeref) \<or>
     (sys_timer_reg w \<noteq> 0 \<and> (\<exists>n. r = Inr (poll (Suc n) w) \<and>
        (\<forall>j<n. clo (timer E (now w + j)) < timout) \<and>
        \<not> clo (timer E (now w + n)) < timout))"
proof (rule spin.raw_induct[OF _ assms])
  fix spin' E timout w r
  assume IH: "\<And>E timout w r. spin' E timout w = Some r \<Longrightarrow>
     (sys_timer_reg w = 0 \<and> r = Inl NullDeref) \<or>
     (sys_timer_reg w \<noteq> 0 \<and> (\<exists>n. r = Inr (poll (Suc n) w) \<and>
        (\<forall>j<n. clo (timer E (now w + j)) < timout) \<and>
        \<not> clo (timer E (now w + n)) < timout))"
    and body: "(case read_clo E w of Inl f \<Rightarrow> Some (Inl f)
        | Inr (v, w') \<Rightarrow> if v < timout then spin' E timout w' else Some (Inr w')) = Some r"
  show "(sys_timer_reg w = 0 \<and> r = Inl NullDeref) \<or>
     (sys_timer_reg w \<noteq> 0 \<and> (\<exists>n. r = Inr (poll (Suc n) w) \<and>
        (\<forall>j<n. clo (timer E (now w + j)) < timout) \<and>
        \<not> clo (timer E (now w + n)) < timout))"
  proof (cases "sys_timer_reg w = 0")
    case True
    with body show ?thesis by (simp add: read_clo_def)
  next
    case mapped: False
    let ?w = "emit (RegRead CLO) w"
    show ?thesis
    proof (cases "clo (timer E (now w)) < timout")
      case True
      with mapped body have "spin' E timout ?w = Some r"
        by (simp add: read_clo_def)
      from IH[OF this] mapped obtain n where n: "r = Inr (poll (Suc n) ?w)"
        "\<forall>j<n. clo (timer E (now ?w + j)) < timout"
        "\<not> clo (timer E (now ?w + n)) < timout"
        by (auto simp: emit_fields)
      have "\<forall>j<Suc n. clo (timer E (now w + j)) < timout"
      proof (intro allI impI)
        fix j assume "j < Suc n"
        then show "clo (timer E (now w + j)) < timout"
          using True n(2) by (cases j) (auto simp: now_emit)
      qed
      with n(1,3) mapped show ?thesis
        by (intro disjI2 conjI exI[of _ "Suc n"]) (simp_all add: now_emit)
    next
      case False
      with mapped body have "r = Inr (poll (Suc 0) w)"
        by (simp add: read_clo_def)
      with False mapped show ?thesis
        by (intro disjI2 conjI exI[of _ 0]) simp_all
    qed
  qed
qed

lemma ucast_MAP_FAILED: "(ucast MAP_FAILED :: int32) = - 1"
  unfolding MAP_FAILED_def by (rule bit_word_eqI) (simp add: bit_simps)

lemma setup_noop: "config_flag w \<noteq> 0 \<Longrightarrow> setup_microsleep_hard H E w = (0, w)"
  by (simp add: setup_microsleep_hard_def)

lemma setup_unsupported:
  "config_flag w = 0 \<Longrightarrow> bcm_peri_base_phys_addr H (get_pi_version E (now w)) = None \<Longrightarrow>
   setup_microsleep_hard H E w = (- ENOPIVER H, emit (GetPiVersion (get_pi_version E (now w))) w)"
  by (simp add: setup_microsleep_hard_def Let_def)

lemma setup_supported:
  "config_flag w = 0 \<Longrightarrow> bcm_peri_base_phys_addr H (get_pi_version E (now w)) = Some base \<Longrightarrow>
   a = base + BCM_SYS_TIMER_BASE_OFFSET H \<Longrightarrow> p = map_peripheral E (Suc (now w)) a \<Longrightarrow>
   setup_microsleep_hard H E w =
     (if p = MAP_FAILED
      then (- 1, w\<lparr>sys_timer_virt_addr := p,
                    history := history w @ [GetPiVersion (get_pi_version E (now w)), MapPeripheral a p]\<rparr>)
      else (0, w\<lparr>sys_timer_virt_addr := p, config_flag := 1, sys_timer_reg := p,
                    history := history w @ [GetPiVersion (get_pi_version E (now w)), MapPeripheral a p]\<rparr>))"
  by (simp add: setup_microsleep_hard_def Let_def now_def emit_def ucast_MAP_FAILED)

lemma base_None: "bcm_peri_base_phys_addr H v = None \<longleftrightarrow> v \<notin> {0, 1, 2, 3, 4, 5}"
  by (simp add: bcm_peri_base_phys_addr_def)

lemma base_table: "bcm_peri_base_phys_addr H v = base_address_table H v"
  by (simp add: bcm_peri_base_phys_addr_def base_address_table_def)


lemma mapped_after_setup:
  "setup_microsleep_hard sample_header (sample_env 4 0x7F8000 start) boot = (0, mapped)"
  by (simp add: setup_microsleep_hard_def bcm_peri_base_phys_addr_def sample_header_def
      sample_env_def boot_def mapped_def now_def emit_def Let_def MAP_FAILED_def)

section \<open>The initializer\<close>

text \<open>
  Claim C4. With the flag unset, a generation outside \<open>{0, \<dots>, 5}\<close> makes
  \<^verbatim>\<open>setup_microsleep_hard\<close> return \<^verbatim>\<open>-ENOPIVER\<close> with the query of the resolver as
  its only event, so the mapper is not called; a generation inside the set is followed by
  a call of the mapper.
\<close>

theorem setup_unsupported_platform:
  assumes "config_flag w = 0"
  shows "(get_pi_version E (now w) \<notin> {0, 1, 2, 3, 4, 5} \<longrightarrow>
            setup_microsleep_hard H E w =
              (- ENOPIVER H, emit (GetPiVersion (get_pi_version E (now w))) w)) \<and>
         (get_pi_version E (now w) \<in> {0, 1, 2, 3, 4, 5} \<longrightarrow>
            (\<exists>a p. history (snd (setup_microsleep_hard H E w)) =
               history w @ [GetPiVersion (get_pi_version E (now w)), MapPeripheral a p]))"
proof (intro conjI impI)
  assume "get_pi_version E (now w) \<notin> {0, 1, 2, 3, 4, 5}"
  then have "bcm_peri_base_phys_addr H (get_pi_version E (now w)) = None"
    by (simp add: base_None)
  with assms show "setup_microsleep_hard H E w =
      (- ENOPIVER H, emit (GetPiVersion (get_pi_version E (now w))) w)"
    by (rule setup_unsupported)
next
  assume "get_pi_version E (now w) \<in> {0, 1, 2, 3, 4, 5}"
  then have "bcm_peri_base_phys_addr H (get_pi_version E (now w)) \<noteq> None"
    by (simp add: base_None)
  then obtain base where "bcm_peri_base_phys_addr H (get_pi_version E (now w)) = Some base"
    by blast
  from setup_supported[OF assms this refl refl]
  show "\<exists>a p. history (snd (setup_microsleep_hard H E w)) =
      history w @ [GetPiVersion (get_pi_version E (now w)), MapPeripheral a p]"
    by (auto split: if_splits)
qed

theorem setup_unsupported_platform_witness:
  "setup_microsleep_hard sample_header (sample_env 7 0x7F8000 0) boot =
     (- 2, emit (GetPiVersion 7) boot) \<and>
   (\<exists>a p. history (snd (setup_microsleep_hard sample_header (sample_env 4 0x7F8000 0) boot)) =
      [GetPiVersion 4, MapPeripheral a p])"
proof -
  have flag: "config_flag boot = 0" by (simp add: boot_def)
  show ?thesis
    using setup_unsupported_platform[OF flag, of "sample_env 7 0x7F8000 0" sample_header]
      setup_unsupported_platform[OF flag, of "sample_env 4 0x7F8000 0" sample_header]
    by (simp add: sample_env_def sample_header_def boot_def)
qed

text \<open>
  Claim C7. For a generation of the base address table, the address handed to the mapper
  is the entry of the table plus \<^verbatim>\<open>BCM_SYS_TIMER_BASE_OFFSET\<close>.
\<close>

theorem setup_timer_block_address:
  assumes "config_flag w = 0"
    and "base_address_table H (get_pi_version E (now w)) = Some base"
  shows "history (snd (setup_microsleep_hard H E w)) =
     history w @ [GetPiVersion (get_pi_version E (now w)),
       MapPeripheral (base + BCM_SYS_TIMER_BASE_OFFSET H)
         (map_peripheral E (Suc (now w)) (base + BCM_SYS_TIMER_BASE_OFFSET H))]"
proof -
  from assms(2) have "bcm_peri_base_phys_addr H (get_pi_version E (now w)) = Some base"
    by (simp only: base_table)
  from setup_supported[OF assms(1) this refl refl] show ?thesis
    by simp
qed

theorem setup_timer_block_address_witness:
  "history (snd (setup_microsleep_hard sample_header (sample_env 4 0x7F8000 0) boot)) =
     [GetPiVersion 4, MapPeripheral 0xFE003000 0x7F8000]"
proof -
  have flag: "config_flag boot = 0" by (simp add: boot_def)
  have tab: "base_address_table sample_header
      (get_pi_version (sample_env 4 0x7F8000 0) (now boot)) = Some 0xFE000000"
    by (simp add: base_address_table_def sample_header_def sample_env_def)
  show ?thesis
    using setup_timer_block_address[OF flag tab]
    by (simp add: sample_env_def sample_header_def boot_def)
qed

text \<open>
  Claim C10. When the mapper answers \<^verbatim>\<open>MAP_FAILED\<close>, the global
  \<^verbatim>\<open>sys_timer_virt_addr\<close> holds \<^verbatim>\<open>MAP_FAILED\<close> on return, while \<^verbatim>\<open>sys_timer_reg\<close>
  and \<^verbatim>\<open>config_flag\<close> are as before the call.
\<close>

theorem setup_mapper_failure_globals:
  assumes "config_flag w = 0"
    and "bcm_peri_base_phys_addr H (get_pi_version E (now w)) = Some base"
    and "map_peripheral E (Suc (now w)) (base + BCM_SYS_TIMER_BASE_OFFSET H) = MAP_FAILED"
  shows "sys_timer_virt_addr (snd (setup_microsleep_hard H E w)) = MAP_FAILED \<and>
         sys_timer_reg (snd (setup_microsleep_hard H E w)) = sys_timer_reg w \<and>
         config_flag (snd (setup_microsleep_hard H E w)) = config_flag w"
  using setup_supported[OF assms(1,2) refl refl] assms(3) by simp

theorem setup_mapper_failure_globals_witness:
  "sys_timer_virt_addr (snd (setup_microsleep_hard sample_header (sample_env 0 MAP_FAILED 0) boot)) = MAP_FAILED \<and>
   sys_timer_reg (snd (setup_microsleep_hard sample_header (sample_env 0 MAP_FAILED 0) boot)) = 0 \<and>
   config_flag (snd (setup_microsleep_hard sample_header (sample_env 0 MAP_FAILED 0) boot)) = 0"
proof -
  have flag: "config_flag boot = 0" by (simp add: boot_def)
  have base: "bcm_peri_base_phys_addr sample_header
      (get_pi_version (sample_env 0 MAP_FAILED 0) (now boot)) = Some 0x20000000"
    by (simp add: bcm_peri_base_phys_addr_def sample_header_def sample_env_def)
  have fails: "map_peripheral (sample_env 0 MAP_FAILED 0) (Suc (now boot))
      (0x20000000 + BCM_SYS_TIMER_BASE_OFFSET sample_header) = MAP_FAILED"
    by (simp add: sample_env_def)
  show ?thesis
    using setup_mapper_failure_globals[OF flag base fails]
    by (simp add: boot_def)
qed

text \<open>
  Claim C5. When the mapper answers \<^verbatim>\<open>MAP_FAILED\<close>, \<^verbatim>\<open>setup_microsleep_hard\<close> returns
  \<^verbatim>\<open>(int) MAP_FAILED\<close>, which is \<open>-1\<close>, and leaves \<^verbatim>\<open>config_flag\<close> at 0; the next call
  then queries the resolver again and, for a supported generation, calls the mapper again.
\<close>

theorem setup_mapper_failure_retry:
  assumes "config_flag w = 0"
    and "bcm_peri_base_phys_addr H (get_pi_version E (now w)) = Some base"
    and "map_peripheral E (Suc (now w)) (base + BCM_SYS_TIMER_BASE_OFFSET H) = MAP_FAILED"
    and "setup_microsleep_hard H E w = (status, w')"
  shows "status = ucast MAP_FAILED \<and> status = - 1 \<and> config_flag w' = 0 \<and>
     (\<exists>evs. history (snd (setup_microsleep_hard H E w')) =
          history w' @ GetPiVersion (get_pi_version E (now w')) # evs \<and>
        (\<forall>b. bcm_peri_base_phys_addr H (get_pi_version E (now w')) = Some b \<longrightarrow>
          evs = [MapPeripheral (b + BCM_SYS_TIMER_BASE_OFFSET H)
                  (map_peripheral E (Suc (now w')) (b + BCM_SYS_TIMER_BASE_OFFSET H))]))"
proof -
  from setup_supported[OF assms(1,2) refl refl] assms(3,4)
  have first: "status = - 1" "config_flag w' = 0"
    using assms(1) by auto
  have again: "\<exists>evs. history (snd (setup_microsleep_hard H E w')) =
          history w' @ GetPiVersion (get_pi_version E (now w')) # evs \<and>
        (\<forall>b. bcm_peri_base_phys_addr H (get_pi_version E (now w')) = Some b \<longrightarrow>
          evs = [MapPeripheral (b + BCM_SYS_TIMER_BASE_OFFSET H)
                  (map_peripheral E (Suc (now w')) (b + BCM_SYS_TIMER_BASE_OFFSET H))])"
  proof (cases "bcm_peri_base_phys_addr H (get_pi_version E (now w'))")
    case None
    from setup_unsupported[OF first(2) None] show ?thesis
      by (simp add: None emit_fields)
  next
    case (Some b)
    from setup_supported[OF first(2) Some refl refl] show ?thesis
      by (simp add: Some)
  qed
  with first show ?thesis by (simp add: ucast_MAP_FAILED)
qed

theorem setup_mapper_failure_retry_witness:
  "setup_microsleep_hard sample_header (sample_env 3 MAP_FAILED 0) boot =
     (- 1, boot\<lparr>sys_timer_virt_addr := MAP_FAILED,
                 history := [GetPiVersion 3, MapPeripheral 0x3F003000 MAP_FAILED]\<rparr>) \<and>
   history (snd (setup_microsleep_hard sample_header (sample_env 3 MAP_FAILED 0)
      (boot\<lparr>sys_timer_virt_addr := MAP_FAILED,
             history := [GetPiVersion 3, MapPeripheral 0x3F003000 MAP_FAILED]\<rparr>))) =
     [GetPiVersion 3, MapPeripheral 0x3F003000 MAP_FAILED,
      GetPiVersion 3, MapPeripheral 0x3F003000 MAP_FAILED]"
proof -
  let ?E = "sample_env 3 MAP_FAILED 0"
  let ?w' = "boot\<lparr>sys_timer_virt_addr := MAP_FAILED,
                 history := [GetPiVersion 3, MapPeripheral 0x3F003000 MAP_FAILED]\<rparr>"
  have flag: "config_flag boot = 0" by (simp add: boot_def)
  have base: "bcm_peri_base_phys_addr sample_header (get_pi_version ?E (now boot)) =
      Some 0x3F000000"
    by (simp add: bcm_peri_base_phys_addr_def sample_header_def sample_env_def)
  have fails: "map_peripheral ?E (Suc (now boot))
      (0x3F000000 + BCM_SYS_TIMER_BASE_OFFSET sample_header) = MAP_FAILED"
    by (simp add: sample_env_def)
  have run: "setup_microsleep_hard sample_header ?E boot = (- 1, ?w')"
    by (simp add: setup_microsleep_hard_def bcm_peri_base_phys_addr_def sample_header_def
        sample_env_def boot_def now_def emit_def Let_def ucast_MAP_FAILED)
  have base': "bcm_peri_base_phys_addr sample_header (get_pi_version ?E (now ?w')) =
      Some 0x3F000000"
    by (simp add: bcm_peri_base_phys_addr_def sample_header_def sample_env_def)
  have again: "history (snd (setup_microsleep_hard sample_header ?E ?w')) =
      [GetPiVersion 3, MapPeripheral 0x3F003000 MAP_FAILED,
       GetPiVersion 3, MapPeripheral 0x3F003000 MAP_FAILED]"
    using setup_mapper_failure_retry[OF flag base fails run] base'
    by (simp add: sample_env_def sample_header_def boot_def now_def)
  show ?thesis
    by (rule conjI[OF run again])
qed


subsection \<open>Repeated calls\<close>

lemma setup_n_noop: "config_flag w \<noteq> 0 \<Longrightarrow> setup_n H E n w = (replicate n 0, w)"
  by (induction n) (simp_all add: setup_noop)

lemma setup_n_add:
  "setup_n H E (k + n) w =
     (fst (setup_n H E k w) @ fst (setup_n H E n (snd (setup_n H E k w))),
      snd (setup_n H E n (snd (setup_n H E k w))))"
  by (induction k arbitrary: w) (simp_all add: split_beta)

lemma setup_mappings:
  assumes "config_flag w = 0"
  shows "length (filter is_mapping (history (snd (setup_microsleep_hard H E w)))) =
     length (filter is_mapping (history w)) +
       (if config_flag (snd (setup_microsleep_hard H E w)) \<noteq> 0 then 1 else 0)"
proof (cases "bcm_peri_base_phys_addr H (get_pi_version E (now w))")
  case None
  from setup_unsupported[OF assms None] assms show ?thesis
    by (simp add: emit_fields)
next
  case (Some base)
  from setup_supported[OF assms Some refl refl] assms show ?thesis
    by simp
qed

lemma setup_n_mappings:
  "config_flag w = 0 \<Longrightarrow>
   length (filter is_mapping (history (snd (setup_n H E n w)))) =
     length (filter is_mapping (history w)) +
       (if config_flag (snd (setup_n H E n w)) \<noteq> 0 then 1 else 0)"
proof (induction n arbitrary: w)
  case 0
  then show ?case by simp
next
  case (Suc n)
  let ?w1 = "snd (setup_microsleep_hard H E w)"
  have step: "snd (setup_n H E (Suc n) w) = snd (setup_n H E n ?w1)"
    by (simp add: split_beta)
  show ?case
  proof (cases "config_flag ?w1 = 0")
    case True
    from Suc.IH[OF True] setup_mappings[OF Suc.prems, of H E] True show ?thesis
      unfolding step by simp
  next
    case False
    then have "setup_n H E n ?w1 = (replicate n 0, ?w1)"
      by (rule setup_n_noop)
    with setup_mappings[OF Suc.prems, of H E] False show ?thesis
      unfolding step by simp
  qed
qed

text \<open>
  Unless \<^verbatim>\<open>ENOPIVER\<close> is 0, a call that starts with the flag unset returns 0 exactly when
  it sets the flag.
\<close>

lemma setup_status_flag:
  assumes "config_flag w = 0" and "ENOPIVER H \<noteq> 0"
  shows "fst (setup_microsleep_hard H E w) = 0 \<longleftrightarrow>
         config_flag (snd (setup_microsleep_hard H E w)) \<noteq> 0"
proof (cases "bcm_peri_base_phys_addr H (get_pi_version E (now w))")
  case None
  from setup_unsupported[OF assms(1) None] assms show ?thesis
    by (simp add: emit_fields)
next
  case (Some base)
  from setup_supported[OF assms(1) Some refl refl] assms(1) show ?thesis
    by simp
qed

text \<open>
  Claim C3. Once one of the first \<open>k\<close> calls has set the flag, each of \<open>n\<close> further
  calls returns 0 and leaves the whole world as it was, history included: no query of the
  resolver, no call of the mapper, no change of a global. Over all \<open>k + n\<close> calls exactly
  one mapping has been established.
\<close>

theorem setup_idempotent:
  assumes "config_flag w = 0"
    and "config_flag (snd (setup_n H E k w)) \<noteq> 0"
  shows "setup_n H E (k + n) w =
           (fst (setup_n H E k w) @ replicate n 0, snd (setup_n H E k w)) \<and>
         length (filter is_mapping (history (snd (setup_n H E (k + n) w)))) =
           Suc (length (filter is_mapping (history w)))"
proof -
  have rest: "setup_n H E n (snd (setup_n H E k w)) = (replicate n 0, snd (setup_n H E k w))"
    using assms(2) by (rule setup_n_noop)
  then have run: "setup_n H E (k + n) w =
      (fst (setup_n H E k w) @ replicate n 0, snd (setup_n H E k w))"
    by (simp add: setup_n_add)
  from setup_n_mappings[OF assms(1), of H E k] assms(2)
  have "length (filter is_mapping (history (snd (setup_n H E k w)))) =
      Suc (length (filter is_mapping (history w)))"
    by simp
  with run show ?thesis by simp
qed

theorem setup_idempotent_witness:
  "setup_n sample_header (sample_env 4 0x7F8000 0) (Suc (Suc (Suc 0))) boot =
     ([0, 0, 0],
      \<lparr>sys_timer_virt_addr = 0x7F8000, config_flag = 1, sys_timer_reg = 0x7F8000,
        history = [GetPiVersion 4, MapPeripheral 0xFE003000 0x7F8000]\<rparr>) \<and>
   length (filter is_mapping
     (history (snd (setup_n sample_header (sample_env 4 0x7F8000 0) (Suc (Suc (Suc 0))) boot)))) = 1"
proof -
  let ?E = "sample_env 4 0x7F8000 0"
  have flag: "config_flag boot = 0" by (simp add: boot_def)
  have first: "setup_n sample_header ?E (Suc 0) boot =
      ([0], \<lparr>sys_timer_virt_addr = 0x7F8000, config_flag = 1, sys_timer_reg = 0x7F8000,
        history = [GetPiVersion 4, MapPeripheral 0xFE003000 0x7F8000]\<rparr>)"
    by (simp add: setup_microsleep_hard_def bcm_peri_base_phys_addr_def sample_header_def
        sample_env_def boot_def now_def emit_def Let_def MAP_FAILED_def)
  have succ: "config_flag (snd (setup_n sample_header ?E (Suc 0) boot)) \<noteq> 0"
    by (simp only: first) simp
  show ?thesis
    using setup_idempotent[OF flag succ, of "Suc (Suc 0)"]
    unfolding first fst_conv snd_conv
    by (simp del: setup_n.simps add: boot_def MAP_FAILED_def)
qed

section \<open>The spin-wait engine\<close>

lemma microsleep_initialised:
  assumes "config_flag w \<noteq> 0" and "sys_timer_reg w \<noteq> 0"
  shows "microsleep_hard H E usec w =
    (case spin E (clo (timer E (now w)) + usec) (emit (RegRead CLO) w) of
       None \<Rightarrow> None
     | Some (Inl f) \<Rightarrow> Some (Inl f)
     | Some (Inr w3) \<Rightarrow> Some (Inr (0, w3)))"
  using assms by (simp add: microsleep_hard_def read_clo_def)

lemma microsleep_exit:
  assumes "config_flag w \<noteq> 0" and "sys_timer_reg w \<noteq> 0"
    and "\<forall>j<n. clo (timer E (Suc (now w) + j)) < clo (timer E (now w)) + usec"
    and "\<not> clo (timer E (Suc (now w) + n)) < clo (timer E (now w)) + usec"
  shows "microsleep_hard H E usec w = Some (Inr (0, poll (Suc (Suc n)) w))"
proof -
  let ?w = "emit (RegRead CLO) w"
  have "spin E (clo (timer E (now w)) + usec) ?w = Some (Inr (poll (Suc n) ?w))"
    by (rule spin_exit) (use assms in \<open>simp_all add: emit_fields now_emit\<close>)
  then show ?thesis
    by (simp add: microsleep_initialised[OF assms(1,2)])
qed

subsection \<open>Termination\<close>

lemma counter_step:
  fixes c :: "nat \<Rightarrow> uint32"
  assumes "unat (c (Suc m) - c m) \<le> S" and "c m < t" and "S + unat t \<le> 2 ^ 32"
  shows "unat (c m) \<le> unat (c (Suc m))"
proof -
  let ?d = "c (Suc m) - c m"
  from assms(2) have "unat (c m) < unat t" by (simp add: word_less_nat_alt)
  with assms(1,3) have "unat (c m) + unat ?d < 2 ^ LENGTH(32)" by simp
  then have "unat (c m + ?d) = unat (c m) + unat ?d"
    by (rule unat_add_lem[THEN iffD1])
  then show ?thesis by simp
qed

lemma counter_reaches:
  fixes c :: "nat \<Rightarrow> uint32"
  assumes adv: "advances S c" and room: "S + unat t \<le> 2 ^ 32"
  shows "\<exists>n. \<not> c (k + n) < t"
proof (rule ccontr)
  assume "\<not> (\<exists>n. \<not> c (k + n) < t)"
  then have below: "\<And>n. c (k + n) < t" by simp
  have step: "unat (c (k + n)) \<le> unat (c (k + Suc n))" for n
  proof -
    from adv have "unat (c (Suc (k + n)) - c (k + n)) \<le> S"
      by (simp add: advances_def)
    from counter_step[OF this below room] show ?thesis by simp
  qed
  have mono: "unat (c (k + i)) \<le> unat (c (k + j))" if "i \<le> j" for i j
    using that by (rule lift_Suc_mono_le[of "\<lambda>n. unat (c (k + n))", OF step])
  have "\<exists>n. b \<le> unat (c (k + n))" for b
  proof (induction b)
    case 0
    show ?case by simp
  next
    case (Suc b)
    then obtain n where n: "b \<le> unat (c (k + n))" ..
    from adv obtain t' where t': "t' > k + n" "c t' \<noteq> c (k + n)"
      unfolding advances_def by blast
    then obtain n' where n': "t' = k + n'" "n \<le> n'"
      by (metis add_leE le_add_diff_inverse less_imp_le_nat nat_add_left_cancel_le)
    from mono[OF n'(2)] t'(2) n'(1) have "unat (c (k + n)) < unat (c (k + n'))"
      by (simp add: le_neq_implies_less word_unat_eq_iff)
    with n show ?case by (intro exI[of _ n']) simp
  qed
  then obtain n where "unat t \<le> unat (c (k + n))" ..
  with below[of n] show False by (simp add: word_less_nat_alt)
qed

lemma counter_first_reach:
  fixes c :: "nat \<Rightarrow> uint32"
  assumes "advances S c" and "S + unat t \<le> 2 ^ 32"
  obtains n where "\<forall>j<n. c (k + j) < t" and "\<not> c (k + n) < t"
proof -
  let ?P = "\<lambda>n. \<not> c (k + n) < t"
  from counter_reaches[OF assms] have ex: "\<exists>n. ?P n" .
  have "\<forall>j<(LEAST n. ?P n). c (k + j) < t"
    using not_less_Least[of _ ?P] by blast
  moreover have "?P (LEAST n. ?P n)" using ex by (rule LeastI_ex)
  ultimately show thesis by (rule that)
qed

text \<open>
  Claim C8. In an initialised world, let the counter advance by at most \<open>S\<close> ticks from
  one moment to the next and never stall for ever. If \<open>start + usec\<close> crosses \<open>2 ^ 32\<close>,
  with the delay small enough that \<open>S + usec \<le> 2 ^ 32\<close>, then \<^verbatim>\<open>microsleep_hard\<close> returns:
  the loop ends after finitely many reads, with status 0.
\<close>

theorem spin_wait_terminates_across_wrap:
  assumes "config_flag w \<noteq> 0" and "sys_timer_reg w \<noteq> 0"
    and "advances S (\<lambda>t. clo (timer E t))"
    and "2 ^ 32 \<le> unat (clo (timer E (now w))) + unat usec"
    and "S + unat usec \<le> 2 ^ 32"
  shows "\<exists>n. microsleep_hard H E usec w = Some (Inr (0, poll (Suc (Suc n)) w))"
proof -
  let ?start = "clo (timer E (now w))"
  have "unat (?start + usec) = (unat ?start + unat usec) mod 2 ^ 32"
    by (simp add: unat_word_ariths)
  also have "\<dots> = unat ?start + unat usec - 2 ^ 32"
  proof -
    have "unat ?start < 2 ^ 32" "unat usec < 2 ^ 32"
      using unsigned_less[of ?start] unsigned_less[of usec] by simp_all
    with assms(4) show ?thesis
      by (simp add: mod_if le_mod_geq)
  qed
  finally have "unat (?start + usec) \<le> unat usec"
    using unsigned_less[of ?start, where 'a=nat] by simp
  with assms(5) have room: "S + unat (?start + usec) \<le> 2 ^ 32" by simp
  from counter_first_reach[OF assms(3) room, of "Suc (now w)"]
  obtain n where "\<forall>j<n. clo (timer E (Suc (now w) + j)) < ?start + usec"
    and "\<not> clo (timer E (Suc (now w) + n)) < ?start + usec"
    by blast
  from microsleep_exit[OF assms(1,2) this] show ?thesis ..
qed


lemma ticking_advances: "advances 1 (\<lambda>t. clo (timer (sample_env v p start) t))"
proof -
  have "of_nat t + (1 :: uint32) \<noteq> of_nat t" for t
    by simp
  then have "\<exists>t'>t. start + (of_nat t' :: uint32) \<noteq> start + of_nat t" for t
    by (intro exI[of _ "Suc t"]) simp
  then show ?thesis
    by (simp add: advances_def sample_env_def ticking_def)
qed

theorem spin_wait_terminates_across_wrap_witness:
  "\<exists>n. microsleep_hard sample_header (sample_env 4 0x7F8000 0xFFFFFFEE) 0x20 mapped =
     Some (Inr (0, poll (Suc (Suc n)) mapped))"
proof -
  let ?E = "sample_env 4 0x7F8000 0xFFFFFFEE"
  have flag: "config_flag mapped \<noteq> 0" and reg: "sys_timer_reg mapped \<noteq> 0"
    by (simp_all add: mapped_def)
  have cross: "2 ^ 32 \<le> unat (clo (timer ?E (now mapped))) + unat (0x20 :: uint32)"
    by (simp add: sample_env_def ticking_def mapped_def now_def)
  have small: "1 + unat (0x20 :: uint32) \<le> 2 ^ 32"
    by simp
  show ?thesis
    using spin_wait_terminates_across_wrap[OF flag reg ticking_advances cross small]
    by simp
qed

subsection \<open>The comparison at a wrap of the counter\<close>

text \<open>
  Claim C2, at a start value whose target wraps. The counter reads \<open>0xFFFFFFF0\<close> at the
  start and the delay is \<open>0x20\<close>, so \<^verbatim>\<open>timout\<close> is \<open>0x10\<close>. The first check of the loop
  reads \<open>0xFFFFFFF1\<close>, which is not below \<open>0x10\<close>, and the function returns after two
  reads; the counter then stands at \<open>0xFFFFFFF2\<close>, two ticks after the start instead of
  the \<open>0x20\<close> asked for.
\<close>

theorem microsleep_returns_early_on_wrap:
  "clo (timer (sample_env 4 0x7F8000 0xFFFFFFEE) (now mapped)) = 0xFFFFFFF0 \<and>
   microsleep_hard sample_header (sample_env 4 0x7F8000 0xFFFFFFEE) 0x20 mapped =
     Some (Inr (0, mapped\<lparr>history := history mapped @ [RegRead CLO, RegRead CLO]\<rparr>)) \<and>
   clo (timer (sample_env 4 0x7F8000 0xFFFFFFEE) (now mapped + 2)) = 0xFFFFFFF2 \<and>
   \<not> reached 0xFFFFFFF0 0x20 0xFFFFFFF2"
proof -
  let ?E = "sample_env 4 0x7F8000 0xFFFFFFEE"
  have flag: "config_flag mapped \<noteq> 0" and reg: "sys_timer_reg mapped \<noteq> 0"
    by (simp_all add: mapped_def)
  have start: "clo (timer ?E (now mapped)) = 0xFFFFFFF0"
    by (simp add: sample_env_def ticking_def mapped_def now_def)
  have "microsleep_hard sample_header ?E 0x20 mapped = Some (Inr (0, poll (Suc (Suc 0)) mapped))"
    by (rule microsleep_exit[OF flag reg])
      (simp_all add: sample_env_def ticking_def mapped_def now_def)
  moreover have "poll (Suc (Suc 0)) mapped =
      mapped\<lparr>history := history mapped @ [RegRead CLO, RegRead CLO]\<rparr>"
    by (simp add: emit_def mapped_def)
  ultimately have run: "microsleep_hard sample_header ?E 0x20 mapped =
      Some (Inr (0, mapped\<lparr>history := history mapped @ [RegRead CLO, RegRead CLO]\<rparr>))"
    by (simp only:)
  have after: "clo (timer ?E (now mapped + 2)) = 0xFFFFFFF2"
    by (simp add: sample_env_def ticking_def mapped_def now_def)
  have early: "\<not> reached 0xFFFFFFF0 0x20 0xFFFFFFF2"
    by (simp add: reached_def)
  from start run after early show ?thesis
    by (intro conjI)
qed

text \<open>
  Where \<open>start + usec\<close> does not wrap, the plain comparison is enough: a call that returns
  has seen every earlier value below the target, and the value it leaves the loop on has
  reached the target.
\<close>

lemma reached_without_wrap:
  fixes start d v :: uint32
  assumes "unat start + unat d < 2 ^ 32" and "\<not> v < start + d"
  shows "reached start d v"
proof -
  from assms(1) have sum: "unat (start + d) = unat start + unat d"
    by (simp add: unat_add_lem[THEN iffD1])
  from assms(2) have "unat (start + d) \<le> unat v"
    by (simp add: word_less_nat_alt)
  with sum have le: "unat start + unat d \<le> unat v" by simp
  then have "start \<le> v" by (simp add: word_le_nat_alt)
  then have "unat (v - start) = unat v - unat start" by (rule unat_sub)
  with le show ?thesis by (simp add: reached_def word_le_nat_alt)
qed

lemma microsleep_waits_without_wrap:
  assumes "config_flag w \<noteq> 0" and "sys_timer_reg w \<noteq> 0"
    and "unat (clo (timer E (now w))) + unat usec < 2 ^ 32"
    and "microsleep_hard H E usec w = Some (Inr (status, w'))"
  shows "\<exists>n. w' = poll (Suc (Suc n)) w \<and>
           (\<forall>j<n. clo (timer E (Suc (now w) + j)) < clo (timer E (now w)) + usec) \<and>
           reached (clo (timer E (now w))) usec (clo (timer E (Suc (now w) + n)))"
proof -
  let ?w = "emit (RegRead CLO) w"
  let ?timout = "clo (timer E (now w)) + usec"
  from assms(4) have "spin E ?timout ?w = Some (Inr w')"
    by (auto simp: microsleep_initialised[OF assms(1,2)] split: option.splits sum.splits)
  from spin_result[OF this] obtain n where n: "w' = poll (Suc n) ?w"
    "\<forall>j<n. clo (timer E (now ?w + j)) < ?timout"
    "\<not> clo (timer E (now ?w + n)) < ?timout"
    by auto
  from reached_without_wrap[OF assms(3) n(3)] n(1,2) show ?thesis
    by (intro exI[of _ n]) (simp add: now_emit)
qed

subsection \<open>Lazy initialisation\<close>

lemma microsleep_after_failed_setup:
  assumes "config_flag w = 0" and "sys_timer_reg w = 0"
    and "config_flag (snd (setup_microsleep_hard H E w)) = 0"
  shows "microsleep_hard H E usec w = Some (Inl NullDeref)"
proof -
  have "sys_timer_reg (snd (setup_microsleep_hard H E w)) = 0"
  proof (cases "bcm_peri_base_phys_addr H (get_pi_version E (now w))")
    case None
    from setup_unsupported[OF assms(1) None] assms(2) show ?thesis
      by (simp add: emit_fields)
  next
    case (Some base)
    from setup_supported[OF assms(1) Some refl refl] assms(2,3) show ?thesis
      by (simp split: if_splits)
  qed
  with assms(1) show ?thesis
    by (simp add: microsleep_hard_def read_clo_def)
qed

text \<open>
  Claim C1, at two failing initialisations from program start. With the unsupported
  generation 7 \<^verbatim>\<open>setup_microsleep_hard\<close> returns \<^verbatim>\<open>-ENOPIVER\<close>, with a failing mapper it
  returns \<open>-1\<close>; in both cases \<^verbatim>\<open>microsleep_hard\<close> drops the status, goes on to read
  \<^verbatim>\<open>clo\<close> through the null pointer and faults.
\<close>

theorem microsleep_drops_setup_failure:
  "setup_microsleep_hard sample_header (sample_env 7 0x7F8000 0) boot =
     (- 2, boot\<lparr>history := [GetPiVersion 7]\<rparr>) \<and>
   microsleep_hard sample_header (sample_env 7 0x7F8000 0) 10 boot = Some (Inl NullDeref) \<and>
   setup_microsleep_hard sample_header (sample_env 4 MAP_FAILED 0) boot =
     (- 1, boot\<lparr>sys_timer_virt_addr := MAP_FAILED,
                 history := [GetPiVersion 4, MapPeripheral 0xFE003000 MAP_FAILED]\<rparr>) \<and>
   microsleep_hard sample_header (sample_env 4 MAP_FAILED 0) 10 boot = Some (Inl NullDeref)"
proof -
  have a: "setup_microsleep_hard sample_header (sample_env 7 0x7F8000 0) boot =
     (- 2, boot\<lparr>history := [GetPiVersion 7]\<rparr>)"
    by (simp add: setup_microsleep_hard_def bcm_peri_base_phys_addr_def sample_header_def
        sample_env_def boot_def now_def emit_def Let_def)
  have b: "setup_microsleep_hard sample_header (sample_env 4 MAP_FAILED 0) boot =
     (- 1, boot\<lparr>sys_timer_virt_addr := MAP_FAILED,
                 history := [GetPiVersion 4, MapPeripheral 0xFE003000 MAP_FAILED]\<rparr>)"
    by (simp add: setup_microsleep_hard_def bcm_peri_base_phys_addr_def sample_header_def
        sample_env_def boot_def now_def emit_def Let_def ucast_MAP_FAILED)
  have z: "config_flag boot = 0" "sys_timer_reg boot = 0"
    by (simp_all add: boot_def)
  have c: "microsleep_hard sample_header (sample_env 7 0x7F8000 0) 10 boot = Some (Inl NullDeref)"
    by (rule microsleep_after_failed_setup[OF z]) (subst a, simp add: boot_def)
  have d: "microsleep_hard sample_header (sample_env 4 MAP_FAILED 0) 10 boot = Some (Inl NullDeref)"
    by (rule microsleep_after_failed_setup[OF z]) (subst b, simp add: boot_def)
  from a c b d show ?thesis by blast
qed


subsection \<open>Zero delay\<close>

lemma ticking_from_max:
  "clo (ticking 0xFFFFFFFD (Suc (Suc (Suc j)))) = of_nat j"
  by (simp add: ticking_def)

text \<open>
  Claim C6, at a counter that reads \<open>0xFFFFFFFF\<close> at the start and ticks to 0 before
  the first check. With delay 0 the target is \<open>0xFFFFFFFF\<close>, the condition of the loop
  holds on the first check, and the function returns only when the counter reads
  \<open>0xFFFFFFFF\<close> again: after \<open>2 ^ 32 + 1\<close> reads.
\<close>

theorem microsleep_zero_delay_spins_at_wrap:
  "clo (timer (sample_env 4 0x7F8000 0xFFFFFFFD) (now mapped)) = 0xFFFFFFFF \<and>
   clo (timer (sample_env 4 0x7F8000 0xFFFFFFFD) (Suc (now mapped))) <
     clo (timer (sample_env 4 0x7F8000 0xFFFFFFFD) (now mapped)) + 0 \<and>
   microsleep_hard sample_header (sample_env 4 0x7F8000 0xFFFFFFFD) 0 mapped =
     Some (Inr (0, poll (2 ^ 32 + 1) mapped))"
proof -
  let ?E = "sample_env 4 0x7F8000 0xFFFFFFFD"
  have flag: "config_flag mapped \<noteq> 0" and reg: "sys_timer_reg mapped \<noteq> 0"
    by (simp_all add: mapped_def)
  have start: "clo (timer ?E (now mapped)) = 0xFFFFFFFF"
    by (simp add: sample_env_def ticking_def mapped_def now_def)
  have later: "clo (timer ?E (Suc (now mapped) + j)) = of_nat j" for j
    by (simp add: sample_env_def ticking_from_max mapped_def now_def)
  have spins: "\<forall>j<2 ^ 32 - 1. clo (timer ?E (Suc (now mapped) + j)) < clo (timer ?E (now mapped)) + 0"
  proof (intro allI impI)
    fix j :: nat
    assume "j < 2 ^ 32 - 1"
    then have "unat (of_nat j :: uint32) = j"
      by (simp add: unsigned_of_nat take_bit_nat_eq_self)
    with \<open>j < 2 ^ 32 - 1\<close> have "(of_nat j :: uint32) < 0xFFFFFFFF"
      by (simp add: word_less_nat_alt)
    then show "clo (timer ?E (Suc (now mapped) + j)) < clo (timer ?E (now mapped)) + 0"
      by (simp only: later start add_0_right)
  qed
  have "(of_nat (2 ^ 32 - 1) :: uint32) = 0xFFFFFFFF"
    by simp
  then have exits: "\<not> clo (timer ?E (Suc (now mapped) + (2 ^ 32 - 1))) < clo (timer ?E (now mapped)) + 0"
    by (simp only: later start add_0_right)
  have "Suc (Suc (2 ^ 32 - 1)) = (2 ^ 32 + 1 :: nat)"
    by simp
  with microsleep_exit[OF flag reg spins exits, of sample_header]
  have run: "microsleep_hard sample_header ?E 0 mapped = Some (Inr (0, poll (2 ^ 32 + 1) mapped))"
    by (simp only:)
  have first: "clo (timer ?E (Suc (now mapped))) < clo (timer ?E (now mapped)) + 0"
    using spins by (elim allE[of _ 0]) simp
  from start first run show ?thesis
    by (intro conjI)
qed

text \<open>
  When the first check does not read a value below the start value, a zero delay returns
  after the two reads.
\<close>

lemma microsleep_zero_delay_no_wrap:
  assumes "config_flag w \<noteq> 0" and "sys_timer_reg w \<noteq> 0"
    and "clo (timer E (now w)) \<le> clo (timer E (Suc (now w)))"
  shows "microsleep_hard H E 0 w = Some (Inr (0, poll (Suc (Suc 0)) w))"
  by (rule microsleep_exit[OF assms(1,2)]) (use assms(3) in simp_all)

subsection \<open>Accesses to the register block\<close>

lemma setup_history:
  "\<exists>evs. history (snd (setup_microsleep_hard H E w)) = history w @ evs \<and>
     list_all reads_clo_only evs"
proof (cases "config_flag w = 0")
  case False
  then show ?thesis by (simp add: setup_noop)
next
  case True
  show ?thesis
  proof (cases "bcm_peri_base_phys_addr H (get_pi_version E (now w))")
    case None
    from setup_unsupported[OF True None] show ?thesis
      by (simp add: emit_fields)
  next
    case (Some base)
    from setup_supported[OF True Some refl refl] show ?thesis
      by simp
  qed
qed

text \<open>
  Claim C9. Every event of a call of \<^verbatim>\<open>microsleep_hard\<close> that returns is a query of the
  resolver, a call of the mapper or a read of \<^verbatim>\<open>clo\<close>: no register of the overlay is
  written, \<^verbatim>\<open>c0\<close> and \<^verbatim>\<open>c2\<close> included, and no other register is read.
\<close>

theorem microsleep_only_reads_clo:
  assumes "microsleep_hard H E usec w = Some (Inr (status, w'))"
  shows "\<exists>evs. history w' = history w @ evs \<and> list_all reads_clo_only evs"
proof -
  define w1 where "w1 = (if config_flag w = 0 then snd (setup_microsleep_hard H E w) else w)"
  obtain evs0 where evs0: "history w1 = history w @ evs0" "list_all reads_clo_only evs0"
    using setup_history[of H E w] by (cases "config_flag w = 0") (auto simp: w1_def)
  let ?w2 = "emit (RegRead CLO) w1"
  let ?timout = "clo (timer E (now w1)) + usec"
  from assms have reg: "sys_timer_reg w1 \<noteq> 0"
    by (auto simp: microsleep_hard_def read_clo_def w1_def split: if_splits)
  with assms have "spin E ?timout ?w2 = Some (Inr w')"
    by (auto simp: microsleep_hard_def read_clo_def w1_def Let_def
        split: if_splits option.splits sum.splits)
  from spin_result[OF this] obtain n where "w' = poll (Suc n) ?w2"
    by auto
  then have "history w' = history w @ (evs0 @ RegRead CLO # replicate (Suc n) (RegRead CLO))"
    by (simp only: poll_fields emit_fields evs0(1)) simp
  moreover have "list_all reads_clo_only (evs0 @ RegRead CLO # replicate (Suc n) (RegRead CLO))"
    using evs0(2) by (auto simp: list_all_iff)
  ultimately show ?thesis by blast
qed

lemma microsleep_lazy:
  assumes "config_flag w = 0" and "config_flag (snd (setup_microsleep_hard H E w)) \<noteq> 0"
  shows "microsleep_hard H E usec w = microsleep_hard H E usec (snd (setup_microsleep_hard H E w))"
  using assms by (simp add: microsleep_hard_def)

theorem microsleep_only_reads_clo_witness:
  "microsleep_hard sample_header (sample_env 4 0x7F8000 100) 1 boot =
     Some (Inr (0, \<lparr>sys_timer_virt_addr = 0x7F8000, config_flag = 1, sys_timer_reg = 0x7F8000,
        history = [GetPiVersion 4, MapPeripheral 0xFE003000 0x7F8000, RegRead CLO, RegRead CLO]\<rparr>)) \<and>
   (\<exists>evs. [GetPiVersion 4, MapPeripheral 0xFE003000 0x7F8000, RegRead CLO, RegRead CLO] =
      history boot @ evs \<and> list_all reads_clo_only evs)"
proof -
  let ?E = "sample_env 4 0x7F8000 100"
  let ?w1 = "\<lparr>sys_timer_virt_addr = 0x7F8000, config_flag = 1, sys_timer_reg = 0x7F8000,
        history = [GetPiVersion 4, MapPeripheral 0xFE003000 0x7F8000]\<rparr>"
  let ?w' = "\<lparr>sys_timer_virt_addr = 0x7F8000, config_flag = 1, sys_timer_reg = 0x7F8000,
        history = [GetPiVersion 4, MapPeripheral 0xFE003000 0x7F8000, RegRead CLO, RegRead CLO]\<rparr>"
  have init: "setup_microsleep_hard sample_header ?E boot = (0, ?w1)"
    by (simp add: setup_microsleep_hard_def bcm_peri_base_phys_addr_def sample_header_def
        sample_env_def boot_def now_def emit_def Let_def MAP_FAILED_def)
  have "microsleep_hard sample_header ?E 1 boot = microsleep_hard sample_header ?E 1 ?w1"
    using microsleep_lazy[of boot sample_header ?E 1] by (simp only: init snd_conv) (simp add: boot_def)
  also have "\<dots> = Some (Inr (0, poll (Suc (Suc 0)) ?w1))"
    by (rule microsleep_exit) (simp_all add: sample_env_def ticking_def now_def)
  also have "poll (Suc (Suc 0)) ?w1 = ?w'"
    by (simp add: emit_def)
  finally have run: "microsleep_hard sample_header ?E 1 boot = Some (Inr (0, ?w'))" .
  from microsleep_only_reads_clo[OF run] run show ?thesis
    by simp
qed

end
